theory Spec2Isabelle
  imports Complex_Main "HOL-Library.Word"
begin

section \<open>Hosting an ONNX model: the notebook's preprocessing and ranking code\<close>

text \<open>
  The notebook \<^verbatim>\<open>mxnet_onnx_eia.ipynb\<close> is a sequence of cells. The cells that compute
  something are embedded here: the upload of the model archive, the construction of the
  \<^verbatim>\<open>MXNetModel\<close> and its deployment, the function \<^verbatim>\<open>preprocess\<close>, the prediction, and
  the cell that loads the labels and prints the five best classes. Library calls (MXNet
  1.4.1, the framework version the notebook names, and numpy for the notebook's Python 3.6
  kernel) are embedded by what the library does for the arguments the notebook passes;
  everything that talks to a remote service (upload, deployment, prediction) or
  interpolates pixels is a parameter.

  Scores and tensor entries are Python and MXNet floating-point numbers. They are embedded
  as \<^typ>\<open>real\<close>: the order of finite floats is the order of the reals, and the rounding
  of each arithmetic operation is not modelled.
\<close>

datatype error =
    NameError | IndexError | ValueError | ZeroDivisionError | MXNetError | ClientError

definition and_then :: "error + 'a \<Rightarrow> ('a \<Rightarrow> error + 'b) \<Rightarrow> error + 'b" where
  \<comment> \<open>run the next statement unless the one before has raised\<close>
  "and_then r f = (case r of Inl e \<Rightarrow> Inl e | Inr x \<Rightarrow> f x)"

section \<open>The ranking cell\<close>

subsection \<open>\<^verbatim>\<open>np.argsort\<close>\<close>

text \<open>
  \<^verbatim>\<open>np.argsort(scores)\<close> with the default \<^verbatim>\<open>kind\<close> sorts an array of indices by key and
  returns it in ascending order of the keys. On up to 16 elements numpy's sort is its
  insertion sort:
  \<^verbatim>\<open>
  for (pi = pl + 1; pi <= pr; ++pi) {
      vi = *pi; vp = v[vi]; pj = pi; pk = pi - 1;
      while (pj > pl && LT(vp, v[*pk])) { *pj-- = *pk--; }
      *pj = vi;
  }
  \<close>
  \<open>shift_index v vi ks\<close> is the inner loop: \<open>ks\<close> is the sorted prefix read from its right
  end, and the index \<open>vi\<close> moves left past every index whose key is strictly greater.
  Longer arrays are modelled by the same insertion sort. numpy partitions an array of
  more than 16 elements first, so there it can return equal keys in another order; it
  returns a permutation of the same indices in ascending order of the keys all the same.
  What is proved below of vectors of any length (that the indices are a permutation, how
  many are printed, that label and score are read at the same index) does not depend on
  the order of equal keys; the order of ties is stated only for the six scores of the
  example.
\<close>

fun shift_index :: "real list \<Rightarrow> nat \<Rightarrow> nat list \<Rightarrow> nat list" where
  "shift_index v vi [] = [vi]"
| "shift_index v vi (k # ks) =
     (if v ! vi < v ! k then k # shift_index v vi ks else vi # k # ks)"

definition sorted_prefix_rev :: "real list \<Rightarrow> nat list" where
  \<comment> \<open>the index array after the outer loop, read from its right end\<close>
  "sorted_prefix_rev v = fold (shift_index v) [0..<length v] []"

definition np_argsort :: "real list \<Rightarrow> nat list" where
  "np_argsort v = rev (sorted_prefix_rev v)"

subsection \<open>Printing the five best classes\<close>

text \<open>
  \<^verbatim>\<open>
  a = np.argsort(scores)[::-1]
  for i in a[0:5]:
      print('class=%s ; probability=%f' %(labels[i],scores[i]))
  \<close>
  A printed line is embedded as the pair of its label and its score. Indexing a Python
  list beyond its end raises \<^verbatim>\<open>IndexError\<close>; the lines printed before stay printed.
\<close>

definition top5_indices :: "real list \<Rightarrow> nat list" where
  "top5_indices scores = take 5 (rev (np_argsort scores))"

fun print_loop ::
  "string list \<Rightarrow> real list \<Rightarrow> nat list \<Rightarrow> (string \<times> real) list
     \<Rightarrow> error option \<times> (string \<times> real) list" where
  "print_loop labels scores [] out = (None, out)"
| "print_loop labels scores (i # is) out =
     (if i < length labels then
        (if i < length scores then
           print_loop labels scores is (out @ [(labels ! i, scores ! i)])
         else (Some IndexError, out))
      else (Some IndexError, out))"

definition rank :: "string list \<Rightarrow> real list \<Rightarrow> error option \<times> (string \<times> real) list" where
  "rank labels scores = print_loop labels scores (top5_indices scores) []"

definition appears_before :: "nat \<Rightarrow> nat \<Rightarrow> nat list \<Rightarrow> bool" where
  \<comment> \<open>\<open>i\<close> and \<open>j\<close> both occur, and \<open>i\<close> occurs first\<close>
  "appears_before i j xs = (j \<in> set xs \<and> i \<in> set (takeWhile (\<lambda>k. k \<noteq> j) xs))"

definition descending :: "real list \<Rightarrow> bool" where
  "descending xs = sorted (rev xs)"

definition tie_desc :: "real list \<Rightarrow> nat \<Rightarrow> nat \<Rightarrow> bool" where
  \<comment> \<open>index \<open>i\<close> may stand before index \<open>j\<close>: greater key, or equal key and greater index\<close>
  "tie_desc v i j = (v ! j < v ! i \<or> (v ! j = v ! i \<and> j < i))"

definition example_scores :: "real list" where
  "example_scores = [0.1, 0.9, 0.05, 0.02, 0.01, 0.02]"

definition example_labels :: "string list" where
  "example_labels = [''l0'', ''l1'', ''l2'', ''l3'', ''l4'', ''l5'']"


section \<open>The function \<^verbatim>\<open>preprocess\<close>\<close>

subsection \<open>Arrays\<close>

text \<open>
  An \<^verbatim>\<open>NDArray\<close> is its shape and its entries, read at a multi-index. An image decoded
  by \<^verbatim>\<open>mx.image.imread\<close> has shape (height, width, channels) and entries of type
  \<^verbatim>\<open>uint8\<close>.
\<close>

type_synonym u8 = "8 word"

record 'a ndarray =
  shape :: "nat list"
  item :: "nat list \<Rightarrow> 'a"

text \<open>
  \<^verbatim>\<open>mx.image.imresize(src, w, h, interp)\<close> hands the image to OpenCV's \<^verbatim>\<open>resize\<close>. The
  result has shape (h, w, channels). Its entries are what OpenCV interpolates; they are
  the parameter \<open>cv\<close>, a function of the interpolation method, the source image, the
  target width and height, and the position. An array that is not three-dimensional, an
  empty source and an empty target are refused.
\<close>

type_synonym resampler = "nat \<Rightarrow> u8 ndarray \<Rightarrow> nat \<Rightarrow> nat \<Rightarrow> nat list \<Rightarrow> u8"

definition imresize :: "resampler \<Rightarrow> u8 ndarray \<Rightarrow> nat \<Rightarrow> nat \<Rightarrow> nat \<Rightarrow> error + u8 ndarray" where
  "imresize cv src w h interp =
     (case shape src of
        [sh, sw, c] \<Rightarrow>
          if sh = 0 \<or> sw = 0 \<or> c = 0 \<or> w = 0 \<or> h = 0 then Inl MXNetError
          else Inr \<lparr>shape = [h, w, c], item = cv interp src w h\<rparr>
      | _ \<Rightarrow> Inl MXNetError)"

subsection \<open>\<^verbatim>\<open>transforms.Resize\<close>\<close>

text \<open>
  \<^verbatim>\<open>
  class Resize(Block):
      def __init__(self, size, keep_ratio=False, interpolation=1):
          self._keep = keep_ratio
          self._size = size
          self._interpolation = interpolation
      def forward(self, x):
          if isinstance(self._size, numeric_types):
              if not self._keep:
                  wsize = self._size
                  hsize = self._size
              else:
                  h, w, _ = x.shape
                  if h > w:
                      wsize = self._size
                      hsize = int(h * wsize / w)
                  else:
                      hsize = self._size
                      wsize = int(w * hsize / h)
          else:
              wsize, hsize = self._size
          return image.imresize(x, wsize, hsize, self._interpolation)
  \<close>
  The notebook writes \<^verbatim>\<open>transforms.Resize(256)\<close>: the size is a number, and
  \<^verbatim>\<open>keep_ratio\<close> and \<^verbatim>\<open>interpolation\<close> keep their defaults. Only a numeric size is
  embedded.
\<close>

record Resize =
  r_size :: nat
  r_keep :: bool
  r_interpolation :: nat

definition Resize_init :: "nat \<Rightarrow> Resize" where
  "Resize_init n = \<lparr>r_size = n, r_keep = False, r_interpolation = 1\<rparr>"

definition Resize_forward :: "Resize \<Rightarrow> resampler \<Rightarrow> u8 ndarray \<Rightarrow> error + u8 ndarray" where
  "Resize_forward t cv x =
     (if \<not> r_keep t then imresize cv x (r_size t) (r_size t) (r_interpolation t)
      else
        (case shape x of
           [h, w, c] \<Rightarrow>
             if h > w then
               (if w = 0 then Inl ZeroDivisionError
                else imresize cv x (r_size t) (h * r_size t div w) (r_interpolation t))
             else
               (if h = 0 then Inl ZeroDivisionError
                else imresize cv x (w * r_size t div h) (r_size t) (r_interpolation t))
         | _ \<Rightarrow> Inl ValueError))"

subsection \<open>\<^verbatim>\<open>transforms.CenterCrop\<close>\<close>

text \<open>
  \<^verbatim>\<open>
  def scale_down(src_size, size):
      w, h = size
      sw, sh = src_size
      if sh < h:
          w, h = float(w * sh) / h, sh
      if sw < w:
          w, h = sw, float(h * sw) / w
      return int(w), int(h)

  def fixed_crop(src, x0, y0, w, h, size=None, interp=2):
      out = nd.slice(src, begin=(y0, x0, 0), end=(y0 + h, x0 + w, int(src.shape[2])))
      if size is not None and (w, h) != size:
          out = imresize(out, *size, interp=interp)
      return out

  def center_crop(src, size, interp=2):
      h, w, _ = src.shape
      new_w, new_h = scale_down((w, h), size)
      x0 = int((w - new_w) / 2)
      y0 = int((h - new_h) / 2)
      out = fixed_crop(src, x0, y0, new_w, new_h, size, interp)
      return out, (x0, y0, new_w, new_h)

  class CenterCrop(Block):
      def __init__(self, size, interpolation=1):
          if isinstance(size, numeric_types):
              size = (size, size)
          self._args = (size, interpolation)
      def forward(self, x):
          return image.center_crop(x, *self._args)[0]
  \<close>
\<close>

definition scale_down :: "nat \<times> nat \<Rightarrow> nat \<times> nat \<Rightarrow> nat \<times> nat" where
  "scale_down src_size tsize =
     (let (w0, h0) = tsize; (sw, sh) = src_size;
          (w1, h1) = (if sh < h0 then (real (w0 * sh) / real h0, real sh)
                      else (real w0, real h0));
          (w2, h2) = (if real sw < w1 then (real sw, h1 * real sw / w1) else (w1, h1))
      in (nat \<lfloor>w2\<rfloor>, nat \<lfloor>h2\<rfloor>))"

definition fixed_crop ::
  "resampler \<Rightarrow> u8 ndarray \<Rightarrow> nat \<Rightarrow> nat \<Rightarrow> nat \<Rightarrow> nat \<Rightarrow> (nat \<times> nat) option \<Rightarrow> nat
     \<Rightarrow> error + u8 ndarray" where
  "fixed_crop cv src x0 y0 w h tsize interp =
     (case shape src of
        [sh, sw, c] \<Rightarrow>
          (let out = \<lparr>shape = [h, w, c],
                      item = (\<lambda>idx. item src [y0 + idx ! 0, x0 + idx ! 1, idx ! 2])\<rparr>
           in case tsize of
                None \<Rightarrow> Inr out
              | Some (tw, th) \<Rightarrow>
                  if (w, h) \<noteq> (tw, th) then imresize cv out tw th interp else Inr out)
      | _ \<Rightarrow> Inl MXNetError)"

definition center_crop ::
  "resampler \<Rightarrow> u8 ndarray \<Rightarrow> nat \<times> nat \<Rightarrow> nat
     \<Rightarrow> error + (u8 ndarray \<times> (nat \<times> nat \<times> nat \<times> nat))" where
  "center_crop cv src tsize interp =
     (case shape src of
        [h, w, c] \<Rightarrow>
          (let (new_w, new_h) = scale_down (w, h) tsize;
               x0 = (w - new_w) div 2;
               y0 = (h - new_h) div 2
           in and_then (fixed_crop cv src x0 y0 new_w new_h (Some tsize) interp)
                (\<lambda>out. Inr (out, (x0, y0, new_w, new_h))))
      | _ \<Rightarrow> Inl ValueError)"

definition CenterCrop_forward :: "nat \<Rightarrow> resampler \<Rightarrow> u8 ndarray \<Rightarrow> error + u8 ndarray" where
  "CenterCrop_forward n cv x = and_then (center_crop cv x (n, n) 1) (\<lambda>r. Inr (fst r))"

subsection \<open>\<^verbatim>\<open>transforms.ToTensor\<close>, \<^verbatim>\<open>transforms.Normalize\<close>, \<^verbatim>\<open>expand_dims\<close>\<close>

text \<open>
  \<^verbatim>\<open>ToTensor\<close> turns an image of shape (H, W, C) with entries in 0..255 into a
  \<^verbatim>\<open>float32\<close> array of shape (C, H, W), each entry divided by 255.
\<close>

definition ToTensor :: "u8 ndarray \<Rightarrow> error + real ndarray" where
  "ToTensor x =
     (case shape x of
        [h, w, c] \<Rightarrow>
          Inr \<lparr>shape = [c, h, w],
               item = (\<lambda>idx. real (unat (item x [idx ! 1, idx ! 2, idx ! 0])) / 255)\<rparr>
      | _ \<Rightarrow> Inl MXNetError)"

text \<open>
  \<^verbatim>\<open>Normalize(mean, std)\<close> takes an array of shape (C, H, W) with one or three channels
  and computes \<^verbatim>\<open>(x - mean[c]) / std[c]\<close> on channel \<open>c\<close>; \<^verbatim>\<open>mean\<close> and \<^verbatim>\<open>std\<close> hold
  one value for all channels or one value per channel.
\<close>

definition per_channel :: "real list \<Rightarrow> nat \<Rightarrow> real" where
  "per_channel vs c = (if length vs = 1 then vs ! 0 else vs ! c)"

definition Normalize :: "real list \<Rightarrow> real list \<Rightarrow> real ndarray \<Rightarrow> error + real ndarray" where
  "Normalize mean std x =
     (case shape x of
        [c, h, w] \<Rightarrow>
          if (c = 3 \<or> c = 1) \<and> (length mean = 1 \<or> length mean = c)
               \<and> (length std = 1 \<or> length std = c)
          then Inr \<lparr>shape = [c, h, w],
                    item = (\<lambda>idx. (item x idx - per_channel mean (idx ! 0))
                                     / per_channel std (idx ! 0))\<rparr>
          else Inl MXNetError
      | _ \<Rightarrow> Inl MXNetError)"

definition expand_dims :: "nat \<Rightarrow> 'a ndarray \<Rightarrow> error + 'a ndarray" where
  "expand_dims axis x =
     (if axis \<le> length (shape x)
      then Inr \<lparr>shape = take axis (shape x) @ [1] @ drop axis (shape x),
                item = (\<lambda>idx. item x (take axis idx @ drop (Suc axis) idx))\<rparr>
      else Inl MXNetError)"

subsection \<open>\<^verbatim>\<open>preprocess\<close>\<close>

text \<open>
  \<^verbatim>\<open>
  def preprocess(img):
      transform_fn = transforms.Compose([
          transforms.Resize(256),
          transforms.CenterCrop(224),
          transforms.ToTensor(),
          transforms.Normalize([0.485, 0.456, 0.406], [0.229, 0.224, 0.225])
      ])
      img = transform_fn(img)
      img = img.expand_dims(axis=0)
      return img
  \<close>
\<close>

definition resized :: "resampler \<Rightarrow> u8 ndarray \<Rightarrow> error + u8 ndarray" where
  \<comment> \<open>the first transform of the composition\<close>
  "resized cv img = Resize_forward (Resize_init 256) cv img"

definition cropped :: "resampler \<Rightarrow> u8 ndarray \<Rightarrow> error + u8 ndarray" where
  \<comment> \<open>the first two transforms of the composition\<close>
  "cropped cv img = and_then (resized cv img) (CenterCrop_forward 224 cv)"

definition transform_fn :: "resampler \<Rightarrow> u8 ndarray \<Rightarrow> error + real ndarray" where
  "transform_fn cv img =
     and_then (and_then (cropped cv img) ToTensor)
       (Normalize [0.485, 0.456, 0.406] [0.229, 0.224, 0.225])"

definition preprocess :: "resampler \<Rightarrow> u8 ndarray \<Rightarrow> error + real ndarray" where
  "preprocess cv img = and_then (transform_fn cv img) (expand_dims 0)"

text \<open>What the specification asks of the first step, in its own words.\<close>

definition aspect_ratio_preserved :: "nat list \<Rightarrow> nat list \<Rightarrow> bool" where
  \<comment> \<open>height to width is the same in both shapes\<close>
  "aspect_ratio_preserved src dst = (dst ! 0 * src ! 1 = dst ! 1 * src ! 0)"

definition shortest_side :: "nat list \<Rightarrow> nat" where
  "shortest_side s = min (s ! 0) (s ! 1)"

text \<open>A resampler and two images, for evaluating examples.\<close>

definition nearest :: resampler where
  "nearest interp src w h idx =
     item src [idx ! 0 * (shape src ! 0) div h, idx ! 1 * (shape src ! 1) div w, idx ! 2]"

definition plain_image :: "nat \<Rightarrow> nat \<Rightarrow> u8 ndarray" where
  \<comment> \<open>a three-channel image of one colour\<close>
  "plain_image h w =
     \<lparr>shape = [h, w, 3], item = (\<lambda>idx. if idx ! 2 = 0 then 255 else if idx ! 2 = 1 then 128 else 0)\<rparr>"

section \<open>The label file\<close>

text \<open>
  \<^verbatim>\<open>
  with open('synset.txt', 'r') as f:
      labels = [l.rstrip() for l in f]
  \<close>
  The text of the file is a list of characters (code points below 256; the file is
  ASCII). A file opened for reading in text mode translates the line ends \<^verbatim>\<open>\r\n\<close> and
  \<^verbatim>\<open>\r\<close> to \<^verbatim>\<open>\n\<close>; iterating over it yields the lines, each with its \<^verbatim>\<open>\n\<close>, and a
  last line without one when the text does not end in \<^verbatim>\<open>\n\<close>. \<^verbatim>\<open>rstrip()\<close> removes the
  trailing characters for which \<^verbatim>\<open>isspace()\<close> holds.
\<close>

fun universal_newlines :: "string \<Rightarrow> string" where
  "universal_newlines [] = []"
| "universal_newlines [c] = (if c = CHR 0x0D then [CHR 0x0A] else [c])"
| "universal_newlines (c # d # cs) =
     (if c = CHR 0x0D \<and> d = CHR 0x0A then CHR 0x0A # universal_newlines cs
      else if c = CHR 0x0D then CHR 0x0A # universal_newlines (d # cs)
      else c # universal_newlines (d # cs))"

fun split_lines :: "string \<Rightarrow> string list" where
  "split_lines [] = []"
| "split_lines (c # cs) =
     (if c = CHR 0x0A then [c] # split_lines cs
      else (case split_lines cs of [] \<Rightarrow> [[c]] | l # ls \<Rightarrow> (c # l) # ls))"

definition file_lines :: "string \<Rightarrow> string list" where
  "file_lines txt = split_lines (universal_newlines txt)"

definition isspace :: "char \<Rightarrow> bool" where
  "isspace c =
     (let n = (of_char c :: nat)
      in (9 \<le> n \<and> n \<le> 13) \<or> (28 \<le> n \<and> n \<le> 32) \<or> n = 133 \<or> n = 160)"

definition rstrip :: "string \<Rightarrow> string" where
  "rstrip s = rev (dropWhile isspace (rev s))"

definition load_labels :: "string \<Rightarrow> string list" where
  "load_labels txt = map rstrip (file_lines txt)"

text \<open>
  What the specification says of the label file, in its own words: the file holds one
  label per line, and label \<open>i\<close> is line \<open>i\<close> without its trailing whitespace. A file
  with the lines \<open>ls\<close> is the text in which every line is followed by its line end,
  \<^verbatim>\<open>\n\<close> or \<^verbatim>\<open>\r\n\<close>, and a last line \<open>final\<close> may follow without one; a line holds
  no line-end character. \<open>stripped_of l r\<close> says that \<open>r\<close> is \<open>l\<close> without its trailing
  whitespace: \<open>r\<close> is the beginning of \<open>l\<close>, the rest of \<open>l\<close> is whitespace, and \<open>r\<close>
  does not end in whitespace.
\<close>

definition no_line_end :: "string \<Rightarrow> bool" where
  "no_line_end l = (CHR 0x0A \<notin> set l \<and> CHR 0x0D \<notin> set l)"

definition is_line_end :: "string \<Rightarrow> bool" where
  "is_line_end e = (e = [CHR 0x0A] \<or> e = [CHR 0x0D, CHR 0x0A])"

definition text_of_lines :: "string list \<Rightarrow> string list \<Rightarrow> string \<Rightarrow> string" where
  "text_of_lines ls es final = concat (map2 (@) ls es) @ final"

definition lines_of :: "string list \<Rightarrow> string \<Rightarrow> string list" where
  "lines_of ls final = (if final = [] then ls else ls @ [final])"

definition stripped_of :: "string \<Rightarrow> string \<Rightarrow> bool" where
  "stripped_of l r =
     (take (length r) l = r \<and> list_all isspace (drop (length r) l)
      \<and> \<not> (r \<noteq> [] \<and> isspace (last r)))"

section \<open>The notebook\<close>

text \<open>
  The cells share the notebook's global variables. A variable that no cell has assigned
  yet is \<open>None\<close>, and reading it raises \<^verbatim>\<open>NameError\<close>. A cell returns the exception it
  raised, if any, and the variables as it left them. \<open>nb_out\<close> is what the ranking cell
  printed when it last ran. The loop variable \<^verbatim>\<open>i\<close> of that cell is read by no other
  cell and is left out.
\<close>

record MXNetModel =
  model_data :: string
  entry_point :: string
  role :: string
  py_version :: string
  framework_version :: string

record notebook =
  nb_role :: "string option"
  nb_model_data :: "string option"
  nb_mxnet_model :: "MXNetModel option"
  nb_predictor :: "string option"
  nb_img :: "u8 ndarray option"
  nb_input_image :: "real ndarray option"
  nb_scores :: "real list option"
  nb_labels :: "string list option"
  nb_a :: "nat list option"
  nb_out :: "(string \<times> real) list"

type_synonym cell = "notebook \<Rightarrow> error option \<times> notebook"

definition then_cell :: "cell \<Rightarrow> cell \<Rightarrow> cell" where
  \<comment> \<open>cells run in order; an exception stops the run\<close>
  "then_cell c1 c2 nb =
     (case c1 nb of (Some e, nb1) \<Rightarrow> (Some e, nb1) | (None, nb1) \<Rightarrow> c2 nb1)"

text \<open>
  \<^verbatim>\<open>model_data = Session().upload_data(path='onnx_model.tar.gz', key_prefix='model')\<close>
  The upload is a parameter: from the path and the key prefix it returns the URI of the
  stored object, or fails.
\<close>

definition cell_upload :: "(string \<Rightarrow> string \<Rightarrow> error + string) \<Rightarrow> cell" where
  "cell_upload upload_data nb =
     (case upload_data ''onnx_model.tar.gz'' ''model'' of
        Inl e \<Rightarrow> (Some e, nb)
      | Inr uri \<Rightarrow> (None, nb\<lparr>nb_model_data := Some uri\<rparr>))"

text \<open>
  \<^verbatim>\<open>
  mxnet_model = MXNetModel(model_data=model_data,
                           entry_point='resnet152.py',
                           role=role,
                           py_version='py3',
                           framework_version='1.4.1')
  \<close>
  The constructor keeps its arguments.
\<close>

definition cell_model :: cell where
  "cell_model nb =
     (case nb_model_data nb of
        None \<Rightarrow> (Some NameError, nb)
      | Some md \<Rightarrow>
          (case nb_role nb of
             None \<Rightarrow> (Some NameError, nb)
           | Some r \<Rightarrow>
               (None, nb\<lparr>nb_mxnet_model := Some
                  \<lparr>model_data = md, entry_point = ''resnet152.py'', role = r,
                   py_version = ''py3'', framework_version = ''1.4.1''\<rparr>\<rparr>)))"

text \<open>
  \<^verbatim>\<open>
  predictor = mxnet_model.deploy(initial_instance_count=1, instance_type='ml.m5.xlarge',
                                 accelerator_type='ml.eia1.medium')
  \<close>
  The deployment is a parameter: from the model, the instance count, the instance type
  and the accelerator type it returns the name of the endpoint, or fails. The predictor
  is embedded as that name.
\<close>

definition cell_deploy :: "(MXNetModel \<Rightarrow> nat \<Rightarrow> string \<Rightarrow> string \<Rightarrow> error + string) \<Rightarrow> cell" where
  "cell_deploy deploy nb =
     (case nb_mxnet_model nb of
        None \<Rightarrow> (Some NameError, nb)
      | Some m \<Rightarrow>
          (case deploy m 1 ''ml.m5.xlarge'' ''ml.eia1.medium'' of
             Inl e \<Rightarrow> (Some e, nb)
           | Inr p \<Rightarrow> (None, nb\<lparr>nb_predictor := Some p\<rparr>)))"

definition prepare_and_deploy ::
  "(string \<Rightarrow> string \<Rightarrow> error + string)
     \<Rightarrow> (MXNetModel \<Rightarrow> nat \<Rightarrow> string \<Rightarrow> string \<Rightarrow> error + string) \<Rightarrow> cell" where
  \<comment> \<open>the three cells from the archive to the endpoint\<close>
  "prepare_and_deploy upload_data deploy =
     then_cell (cell_upload upload_data) (then_cell cell_model (cell_deploy deploy))"

text \<open>\<^verbatim>\<open>input_image = preprocess(img)\<close>\<close>

definition cell_preprocess :: "resampler \<Rightarrow> cell" where
  "cell_preprocess cv nb =
     (case nb_img nb of
        None \<Rightarrow> (Some NameError, nb)
      | Some img \<Rightarrow>
          (case preprocess cv img of
             Inl e \<Rightarrow> (Some e, nb)
           | Inr t \<Rightarrow> (None, nb\<lparr>nb_input_image := Some t\<rparr>)))"

text \<open>
  \<^verbatim>\<open>scores = predictor.predict(input_image.asnumpy())\<close>
  The request is a parameter: from the name of the endpoint and the tensor it returns
  the score vector, or fails.
\<close>

definition cell_predict :: "(string \<Rightarrow> real ndarray \<Rightarrow> error + real list) \<Rightarrow> cell" where
  "cell_predict predict nb =
     (case nb_predictor nb of
        None \<Rightarrow> (Some NameError, nb)
      | Some p \<Rightarrow>
          (case nb_input_image nb of
             None \<Rightarrow> (Some NameError, nb)
           | Some t \<Rightarrow>
               (case predict p t of
                  Inl e \<Rightarrow> (Some e, nb)
                | Inr v \<Rightarrow> (None, nb\<lparr>nb_scores := Some v\<rparr>))))"

text \<open>
  The ranking cell; \<open>synset\<close> is the text of the label file.
  \<^verbatim>\<open>
  with open('synset.txt', 'r') as f:
      labels = [l.rstrip() for l in f]
  a = np.argsort(scores)[::-1]
  for i in a[0:5]:
      print('class=%s ; probability=%f' %(labels[i],scores[i]))
  \<close>
\<close>

definition cell_rank :: "string \<Rightarrow> cell" where
  "cell_rank synset nb =
     (let labels = load_labels synset;
          nb1 = nb\<lparr>nb_labels := Some labels\<rparr>
      in case nb_scores nb1 of
           None \<Rightarrow> (Some NameError, nb1)
         | Some scores \<Rightarrow>
             (let a = rev (np_argsort scores);
                  nb2 = nb1\<lparr>nb_a := Some a\<rparr>;
                  (e, out) = print_loop labels scores (take 5 a) []
              in (e, nb2\<lparr>nb_out := out\<rparr>)))"

definition run_inference ::
  "resampler \<Rightarrow> (string \<Rightarrow> real ndarray \<Rightarrow> error + real list) \<Rightarrow> string \<Rightarrow> cell" where
  \<comment> \<open>the three cells from the decoded image to the printed classes\<close>
  "run_inference cv predict synset =
     then_cell (cell_preprocess cv) (then_cell (cell_predict predict) (cell_rank synset))"

definition blank_notebook :: notebook where
  \<comment> \<open>no variable assigned, nothing printed\<close>
  "blank_notebook =
     \<lparr>nb_role = None, nb_model_data = None, nb_mxnet_model = None, nb_predictor = None,
      nb_img = None,
      nb_input_image = None, nb_scores = None, nb_labels = None, nb_a = None, nb_out = []\<rparr>"

text \<open>A label file, an upload and notebooks with and without left-over variables, for evaluating examples.\<close>

definition example_synset :: string where
  "example_synset =
     ''n01 tench '' @ [CHR 0x0A] @ ''n02 goldfish'' @ [CHR 0x0D, CHR 0x0A] @ ''n03 shark'' @ [CHR 0x0A]
       @ ''n04 ray'' @ [CHR 0x0A] @ ''n05 cock'' @ [CHR 0x0A] @ ''n06 hen''"

definition example_lines :: "string list" where
  "example_lines = [''n01 tench '', ''n02 goldfish'', ''n03 shark'', ''n04 ray'', ''n05 cock'']"

definition example_ends :: "string list" where
  "example_ends =
     [[CHR 0x0A], [CHR 0x0D, CHR 0x0A], [CHR 0x0A], [CHR 0x0A], [CHR 0x0A]]"

definition example_upload :: "string \<Rightarrow> string \<Rightarrow> error + string" where
  "example_upload path key_prefix = Inr (''s3://bucket/'' @ key_prefix @ ''/'' @ path)"

definition stale_notebook :: notebook where
  "stale_notebook =
     blank_notebook\<lparr>nb_input_image := Some \<lparr>shape = [1], item = (\<lambda>idx. 0)\<rparr>,
       nb_scores := Some [1], nb_labels := Some [''old''], nb_a := Some [0],
       nb_out := [(''old'', 1)]\<rparr>"

definition example_deploy :: "MXNetModel \<Rightarrow> nat \<Rightarrow> string \<Rightarrow> string \<Rightarrow> error + string" where
  "example_deploy m n instance_type accelerator_type = Inr (''endpoint for '' @ model_data m)"

definition stub_classifier :: "string \<Rightarrow> real ndarray \<Rightarrow> error + real list" where
  "stub_classifier p t = Inr example_scores"

definition fresh_run :: notebook where
  "fresh_run =
     blank_notebook\<lparr>nb_predictor := Some ''stub'', nb_img := Some (plain_image 256 256)\<rparr>"

definition repeated_run :: notebook where
  "repeated_run =
     stale_notebook\<lparr>nb_predictor := Some ''stub'', nb_img := Some (plain_image 256 256)\<rparr>"

section \<open>Properties of the ranking cell\<close>

lemma set_shift_index: "set (shift_index v vi ks) = insert vi (set ks)"
  by (induction ks) auto

lemma length_shift_index: "length (shift_index v vi ks) = Suc (length ks)"
  by (induction ks) auto

lemma distinct_shift_index:
  "distinct (shift_index v vi ks) = (vi \<notin> set ks \<and> distinct ks)"
  by (induction ks) (auto simp: set_shift_index)

lemma fold_shift_index:
  "distinct (xs @ acc) \<Longrightarrow>
     set (fold (shift_index v) xs acc) = set xs \<union> set acc \<and>
     length (fold (shift_index v) xs acc) = length xs + length acc \<and>
     distinct (fold (shift_index v) xs acc)"
proof (induction xs arbitrary: acc)
  case Nil
  then show ?case by simp
next
  case (Cons x xs)
  from Cons.prems have d: "distinct (xs @ shift_index v x acc)"
    by (simp add: distinct_shift_index set_shift_index)
  have "set (fold (shift_index v) (x # xs) acc) = set (x # xs) \<union> set acc"
    using Cons.IH [OF d] by (simp add: set_shift_index)
  moreover have "length (fold (shift_index v) (x # xs) acc) = length (x # xs) + length acc"
    using Cons.IH [OF d] by (simp add: length_shift_index)
  moreover have "distinct (fold (shift_index v) (x # xs) acc)"
    using Cons.IH [OF d] by simp
  ultimately show ?case by blast
qed

lemma np_argsort_set: "set (np_argsort v) = {..<length v}"
  using fold_shift_index [of "[0..<length v]" "[]" v]
  by (simp add: np_argsort_def sorted_prefix_rev_def lessThan_atLeast0)

lemma np_argsort_length: "length (np_argsort v) = length v"
  using fold_shift_index [of "[0..<length v]" "[]" v]
  by (simp add: np_argsort_def sorted_prefix_rev_def)

lemma np_argsort_distinct: "distinct (np_argsort v)"
  using fold_shift_index [of "[0..<length v]" "[]" v]
  by (simp add: np_argsort_def sorted_prefix_rev_def)

lemma shift_index_sorted:
  "sorted_wrt (tie_desc v) ks \<Longrightarrow> \<forall>k \<in> set ks. k < vi \<Longrightarrow>
     sorted_wrt (tie_desc v) (shift_index v vi ks)"
proof (induction ks)
  case Nil
  then show ?case by simp
next
  case (Cons k ks)
  show ?case
  proof (cases "v ! vi < v ! k")
    case True
    have "\<forall>j \<in> set (shift_index v vi ks). tie_desc v k j"
      using Cons.prems True by (auto simp: set_shift_index tie_desc_def)
    with Cons True show ?thesis by simp
  next
    case False
    have "\<forall>j \<in> set (k # ks). tie_desc v vi j"
    proof
      fix j assume j: "j \<in> set (k # ks)"
      have "v ! j \<le> v ! k" using j Cons.prems(1) by (auto simp: tie_desc_def)
      with False j Cons.prems(2) show "tie_desc v vi j"
        by (auto simp: tie_desc_def)
    qed
    with Cons.prems False show ?thesis by simp
  qed
qed

lemma fold_shift_index_sorted:
  "sorted_wrt (tie_desc v) acc \<Longrightarrow> \<forall>k \<in> set acc. k < m \<Longrightarrow>
     sorted_wrt (tie_desc v) (fold (shift_index v) [m..<n] acc)"
proof (induction "n - m" arbitrary: m acc)
  case 0
  then show ?case by simp
next
  case (Suc d)
  then have mn: "m < n" by simp
  have s: "sorted_wrt (tie_desc v) (shift_index v m acc)"
    using Suc.prems by (rule shift_index_sorted)
  have b: "\<forall>k \<in> set (shift_index v m acc). k < Suc m"
    using Suc.prems(2) by (auto simp: set_shift_index)
  have d: "d = n - Suc m" using Suc.hyps(2) by simp
  from Suc.hyps(1) [OF d s b] mn show ?case
    by (simp add: upt_conv_Cons)
qed

lemma sorted_prefix_rev_sorted: "sorted_wrt (tie_desc v) (sorted_prefix_rev v)"
  using fold_shift_index_sorted [of v "[]" 0 "length v"]
  by (simp add: sorted_prefix_rev_def)

lemma example_sorted_prefix_rev: "sorted_prefix_rev example_scores = [1, 0, 2, 5, 3, 4]"
  by (simp add: sorted_prefix_rev_def example_scores_def upt_rec)

lemma example_top5_indices: "top5_indices example_scores = [1, 0, 2, 5, 3]"
  by (simp add: top5_indices_def np_argsort_def example_sorted_prefix_rev)

lemma example_rank:
  "rank example_labels example_scores =
     (None, [(''l1'', 0.9), (''l0'', 0.1), (''l2'', 0.05), (''l5'', 0.02), (''l3'', 0.02)])"
  by (simp add: rank_def example_top5_indices)
     (simp add: example_labels_def example_scores_def)

lemma print_loop_ok:
  "\<forall>i \<in> set ixs. i < length labels \<and> i < length scores \<Longrightarrow>
     print_loop labels scores ixs out = (None, out @ map (\<lambda>i. (labels ! i, scores ! i)) ixs)"
  by (induction ixs arbitrary: out) auto

lemma print_loop_status:
  "fst (print_loop labels scores ixs out) =
     (if \<forall>i \<in> set ixs. i < length labels \<and> i < length scores then None else Some IndexError)"
  by (induction ixs arbitrary: out) auto

lemma top5_indices_bound: "i \<in> set (top5_indices v) \<Longrightarrow> i < length v"
proof -
  assume "i \<in> set (top5_indices v)"
  then have "i \<in> set (rev (np_argsort v))"
    unfolding top5_indices_def by (rule in_set_takeD)
  then show ?thesis by (simp add: np_argsort_set)
qed

lemma rank_status:
  "fst (rank labels scores) =
     (if \<forall>i \<in> set (top5_indices scores). i < length labels then None else Some IndexError)"
  by (simp add: rank_def print_loop_status top5_indices_bound)

lemma rank_ok:
  assumes "fst (rank labels scores) = None"
  shows "snd (rank labels scores) = map (\<lambda>i. (labels ! i, scores ! i)) (top5_indices scores)"
proof -
  from assms have "\<forall>i \<in> set (top5_indices scores). i < length labels"
    by (simp add: rank_status split: if_splits)
  then have "\<forall>i \<in> set (top5_indices scores). i < length labels \<and> i < length scores"
    by (simp add: top5_indices_bound)
  then show ?thesis by (simp add: rank_def print_loop_ok)
qed

lemma cell_rank_eq:
  "nb_scores nb = Some scores \<Longrightarrow>
   cell_rank synset nb =
     (fst (rank (load_labels synset) scores),
      nb\<lparr>nb_labels := Some (load_labels synset), nb_a := Some (rev (np_argsort scores)),
         nb_out := snd (rank (load_labels synset) scores)\<rparr>)"
  by (simp add: cell_rank_def Let_def rank_def top5_indices_def split: prod.splits)

section \<open>Properties of \<^verbatim>\<open>preprocess\<close>\<close>

lemma scale_down_256: "scale_down (256, 256) (224, 224) = (224, 224)"
  by (simp add: scale_down_def)

lemma resized_eq:
  assumes "shape img = [h, w, c]" "0 < h" "0 < w" "0 < c"
  shows "resized cv img = Inr \<lparr>shape = [256, 256, c], item = cv 1 img 256 256\<rparr>"
  using assms by (simp add: resized_def Resize_forward_def Resize_init_def imresize_def)

lemma cropped_eq:
  assumes "shape img = [h, w, c]" "0 < h" "0 < w" "0 < c"
  shows "cropped cv img =
    Inr \<lparr>shape = [224, 224, c],
         item = (\<lambda>idx. cv 1 img 256 256 [16 + idx ! 0, 16 + idx ! 1, idx ! 2])\<rparr>"
  by (simp add: cropped_def resized_eq [OF assms] and_then_def CenterCrop_forward_def
      center_crop_def scale_down_256 fixed_crop_def)

lemma scaled_eq:
  assumes "shape img = [h, w, c]" "0 < h" "0 < w" "0 < c"
  shows "and_then (cropped cv img) ToTensor =
    Inr \<lparr>shape = [c, 224, 224],
         item = (\<lambda>idx. real (unat (cv 1 img 256 256 [16 + idx ! 1, 16 + idx ! 2, idx ! 0])) / 255)\<rparr>"
  by (simp add: cropped_eq [OF assms] and_then_def ToTensor_def)

lemma transform_fn_eq:
  assumes "shape img = [h, w, 3]" "0 < h" "0 < w"
  shows "transform_fn cv img =
    Inr \<lparr>shape = [3, 224, 224],
         item = (\<lambda>idx. (real (unat (cv 1 img 256 256 [16 + idx ! 1, 16 + idx ! 2, idx ! 0])) / 255
                          - [0.485, 0.456, 0.406] ! (idx ! 0)) / [0.229, 0.224, 0.225] ! (idx ! 0))\<rparr>"
proof -
  note s = scaled_eq [of img h w 3 cv, OF assms(1) assms(2) assms(3)]
  show ?thesis
    unfolding transform_fn_def
    by (subst s) (simp_all add: and_then_def Normalize_def per_channel_def)
qed

lemma preprocess_expand:
  "transform_fn cv img = Inr u \<Longrightarrow>
     preprocess cv img = Inr \<lparr>shape = 1 # shape u, item = (\<lambda>idx. item u (drop 1 idx))\<rparr>"
  by (simp add: preprocess_def and_then_def expand_dims_def)

lemma plain_image_shape: "shape (plain_image h w) = [h, w, 3]"
  by (simp add: plain_image_def)

lemma and_then_Inr: "and_then r f = Inr y \<longleftrightarrow> (\<exists>x. r = Inr x \<and> f x = Inr y)"
  by (cases r) (simp_all add: and_then_def)

lemma resized_Inr:
  assumes "resized cv img = Inr r"
  shows "\<exists>h w c. shape img = [h, w, c] \<and> 0 < h \<and> 0 < w \<and> 0 < c"
  using assms
  by (simp add: resized_def Resize_forward_def Resize_init_def imresize_def
      split: list.splits if_splits)

lemma preprocess_Inr:
  assumes "preprocess cv img = Inr t"
  shows "\<exists>h w. shape img = [h, w, 3] \<and> 0 < h \<and> 0 < w"
proof -
  from assms obtain u where u: "transform_fn cv img = Inr u"
    by (auto simp: preprocess_def and_then_Inr)
  then obtain s where s: "and_then (cropped cv img) ToTensor = Inr s"
    and n: "Normalize [0.485, 0.456, 0.406] [0.229, 0.224, 0.225] s = Inr u"
    by (auto simp: transform_fn_def and_then_Inr [of "and_then (cropped cv img) ToTensor"])
  from s obtain r where "resized cv img = Inr r"
    by (auto simp: cropped_def and_then_Inr)
  then obtain h w c where i: "shape img = [h, w, c]" "0 < h" "0 < w" "0 < c"
    using resized_Inr by blast
  from s have "shape s = [c, 224, 224]"
    by (auto simp: scaled_eq [OF i])
  with n have "c = 3"
    by (auto simp: Normalize_def split: if_splits)
  with i show ?thesis by simp
qed

section \<open>Properties of the label file and of the cells\<close>

lemma universal_newlines_Cons:
  "c \<noteq> CHR 0x0D \<Longrightarrow> universal_newlines (c # cs) = c # universal_newlines cs"
  by (cases cs) simp_all

lemma universal_newlines_plain:
  "CHR 0x0D \<notin> set l \<Longrightarrow> universal_newlines (l @ rest) = l @ universal_newlines rest"
proof (induction l)
  case Nil
  then show ?case by simp
next
  case (Cons a l)
  then have "a \<noteq> CHR 0x0D" by auto
  with Cons show ?case by (simp add: universal_newlines_Cons)
qed

lemma universal_newlines_line:
  assumes "CHR 0x0D \<notin> set l" "is_line_end e"
  shows "universal_newlines (l @ e @ rest) = l @ CHR 0x0A # universal_newlines rest"
proof -
  have "universal_newlines (e @ rest) = CHR 0x0A # universal_newlines rest"
    using assms(2) by (auto simp: is_line_end_def universal_newlines_Cons)
  then show ?thesis
    using assms(1) by (simp add: universal_newlines_plain)
qed

lemma universal_newlines_text:
  assumes "length es = length ls" "\<forall>l \<in> set ls. no_line_end l" "\<forall>e \<in> set es. is_line_end e"
    "no_line_end final"
  shows "universal_newlines (text_of_lines ls es final) =
           concat (map (\<lambda>l. l @ [CHR 0x0A]) ls) @ final"
  using assms
proof (induction es ls rule: list_induct2)
  case Nil
  then show ?case
    using universal_newlines_plain [of final "[]"]
    by (simp add: text_of_lines_def no_line_end_def)
next
  case (Cons e es l ls)
  have "universal_newlines (l @ e @ text_of_lines ls es final) =
      l @ CHR 0x0A # universal_newlines (text_of_lines ls es final)"
    using Cons.prems by (intro universal_newlines_line) (simp_all add: no_line_end_def)
  with Cons show ?case
    by (simp add: text_of_lines_def)
qed

lemma split_lines_line:
  "CHR 0x0A \<notin> set l \<Longrightarrow> split_lines (l @ CHR 0x0A # rest) = (l @ [CHR 0x0A]) # split_lines rest"
proof (induction l)
  case Nil
  then show ?case by simp
next
  case (Cons a l)
  then have "a \<noteq> CHR 0x0A" by auto
  with Cons show ?case by simp
qed

lemma split_lines_Nil: "split_lines l = [] \<longleftrightarrow> l = []"
  by (cases l) (simp_all split: list.splits)

lemma split_lines_last:
  "CHR 0x0A \<notin> set l \<Longrightarrow> l \<noteq> [] \<Longrightarrow> split_lines l = [l]"
proof (induction l)
  case Nil
  then show ?case by simp
next
  case (Cons a l)
  then have a: "a \<noteq> CHR 0x0A" by auto
  show ?case
  proof (cases "l = []")
    case True
    with a show ?thesis by simp
  next
    case False
    with Cons have "split_lines l = [l]" by simp
    with a show ?thesis by simp
  qed
qed

lemma split_lines_text:
  assumes "\<forall>l \<in> set ls. no_line_end l" "no_line_end final"
  shows "split_lines (concat (map (\<lambda>l. l @ [CHR 0x0A]) ls) @ final) =
           map (\<lambda>l. l @ [CHR 0x0A]) (if final = [] then ls else ls) @
             (if final = [] then [] else [final])"
  using assms
proof (induction ls)
  case Nil
  then show ?case by (simp add: split_lines_last no_line_end_def)
next
  case (Cons l ls)
  then show ?case by (simp add: split_lines_line no_line_end_def)
qed

lemma isspace_newline: "isspace (CHR 0x0A)"
  by (simp add: isspace_def)

lemma rstrip_newline: "rstrip (l @ [CHR 0x0A]) = rstrip l"
  by (simp add: rstrip_def isspace_newline)

lemma stripped_of_rstrip: "stripped_of l (rstrip l)"
proof -
  define ws where "ws = rev (takeWhile isspace (rev l))"
  have l: "l = rstrip l @ ws"
    unfolding rstrip_def ws_def
    by (metis rev_append rev_rev_ident takeWhile_dropWhile_id)
  have w: "list_all isspace ws"
    unfolding ws_def list_all_iff by (auto dest: set_takeWhileD)
  have e: "\<not> (rstrip l \<noteq> [] \<and> isspace (last (rstrip l)))"
  proof
    assume a: "rstrip l \<noteq> [] \<and> isspace (last (rstrip l))"
    then have n: "dropWhile isspace (rev l) \<noteq> []" by (simp add: rstrip_def)
    have "last (rstrip l) = hd (dropWhile isspace (rev l))"
      using n by (simp add: rstrip_def last_rev)
    with a hd_dropWhile [OF n] show False by simp
  qed
  have t: "take (length (rstrip l)) l = rstrip l"
    by (subst l) simp
  have d: "drop (length (rstrip l)) l = ws"
    by (subst l) simp
  show ?thesis
    unfolding stripped_of_def using t d w e by simp
qed

lemma load_labels_text:
  assumes "length es = length ls" "\<forall>l \<in> set ls. no_line_end l" "\<forall>e \<in> set es. is_line_end e"
    "no_line_end final"
  shows "load_labels (text_of_lines ls es final) = map rstrip (lines_of ls final)"
  by (simp add: load_labels_def file_lines_def universal_newlines_text [OF assms]
      split_lines_text [OF assms(2) assms(4)] lines_of_def rstrip_newline)

lemma stripped_of_unique:
  assumes "stripped_of l r"
  shows "r = rstrip l"
proof -
  define ws where "ws = drop (length r) l"
  from assms have l: "l = r @ ws"
    unfolding ws_def stripped_of_def by (metis append_take_drop_id)
  from assms have w: "\<forall>c \<in> set ws. isspace c"
    unfolding ws_def stripped_of_def list_all_iff by simp
  from assms have e: "r = [] \<or> \<not> isspace (last r)"
    unfolding stripped_of_def by blast
  have "dropWhile isspace (rev ws @ rev r) = dropWhile isspace (rev r)"
    by (rule dropWhile_append2) (use w in auto)
  moreover have "dropWhile isspace (rev r) = rev r"
    using e by (cases "rev r") (auto simp: last_rev [symmetric])
  ultimately show ?thesis
    by (simp add: rstrip_def l)
qed

lemma top5_indices_length: "length (top5_indices v) = min 5 (length v)"
  by (simp add: top5_indices_def np_argsort_length min.commute)

lemma top5_indices_distinct: "distinct (top5_indices v)"
  unfolding top5_indices_def by (rule distinct_take) (simp add: np_argsort_distinct)

lemma example_file_lines:
  "file_lines example_synset =
     [''n01 tench '' @ [CHR 0x0A], ''n02 goldfish'' @ [CHR 0x0A], ''n03 shark'' @ [CHR 0x0A],
      ''n04 ray'' @ [CHR 0x0A], ''n05 cock'' @ [CHR 0x0A], ''n06 hen'']"
  by (simp add: file_lines_def example_synset_def)

lemma example_load_labels:
  "load_labels example_synset =
     [''n01 tench'', ''n02 goldfish'', ''n03 shark'', ''n04 ray'', ''n05 cock'', ''n06 hen'']"
  by (simp add: load_labels_def example_file_lines rstrip_def isspace_def)

lemma example_cell_rank:
  "cell_rank example_synset (blank_notebook\<lparr>nb_scores := Some example_scores\<rparr>) =
    (None, blank_notebook\<lparr>nb_scores := Some example_scores,
       nb_labels := Some (load_labels example_synset),
       nb_a := Some (rev (np_argsort example_scores)),
       nb_out := [(''n02 goldfish'', 0.9), (''n01 tench'', 0.1), (''n03 shark'', 0.05),
                  (''n06 hen'', 0.02), (''n04 ray'', 0.02)]\<rparr>)"
proof -
  have r: "rank (load_labels example_synset) example_scores =
     (None, [(''n02 goldfish'', 0.9), (''n01 tench'', 0.1), (''n03 shark'', 0.05),
                  (''n06 hen'', 0.02), (''n04 ray'', 0.02)])"
    by (simp add: rank_def example_top5_indices example_load_labels)
       (simp add: example_scores_def)
  show ?thesis
    by (simp add: cell_rank_eq r)
qed

lemma example_text_of_lines: "text_of_lines example_lines example_ends ''n06 hen'' = example_synset"
  by (simp add: text_of_lines_def example_lines_def example_ends_def example_synset_def)

lemma run_inference_cases:
  "run_inference cv predict synset nb =
     (case nb_img nb of
        None \<Rightarrow> (Some NameError, nb)
      | Some img \<Rightarrow>
          (case preprocess cv img of
             Inl e \<Rightarrow> (Some e, nb)
           | Inr t \<Rightarrow>
               (case nb_predictor nb of
                  None \<Rightarrow> (Some NameError, nb\<lparr>nb_input_image := Some t\<rparr>)
                | Some p \<Rightarrow>
                    (case predict p t of
                       Inl e \<Rightarrow> (Some e, nb\<lparr>nb_input_image := Some t\<rparr>)
                     | Inr v \<Rightarrow>
                         (fst (rank (load_labels synset) v),
                          nb\<lparr>nb_input_image := Some t, nb_scores := Some v,
                             nb_labels := Some (load_labels synset),
                             nb_a := Some (rev (np_argsort v)),
                             nb_out := snd (rank (load_labels synset) v)\<rparr>)))))"
  by (simp add: run_inference_def then_cell_def cell_preprocess_def cell_predict_def
      cell_rank_eq split: option.splits sum.splits)

lemma example_run:
  assumes "nb_img nb = Some (plain_image 256 256)" "nb_predictor nb = Some ''stub''"
  shows "fst (run_inference nearest stub_classifier example_synset nb) = None"
    and "nb_out (snd (run_inference nearest stub_classifier example_synset nb)) =
       [(''n02 goldfish'', 0.9), (''n01 tench'', 0.1), (''n03 shark'', 0.05),
        (''n06 hen'', 0.02), (''n04 ray'', 0.02)]"
proof -
  have r: "rank (load_labels example_synset) example_scores =
     (None, [(''n02 goldfish'', 0.9), (''n01 tench'', 0.1), (''n03 shark'', 0.05),
                  (''n06 hen'', 0.02), (''n04 ray'', 0.02)])"
    by (simp add: rank_def example_top5_indices example_load_labels)
       (simp add: example_scores_def)
  note p = preprocess_expand [OF transform_fn_eq [OF plain_image_shape, of 256 256 nearest]]
  show "fst (run_inference nearest stub_classifier example_synset nb) = None"
    by (simp add: run_inference_cases assms p stub_classifier_def r)
  show "nb_out (snd (run_inference nearest stub_classifier example_synset nb)) =
       [(''n02 goldfish'', 0.9), (''n01 tench'', 0.1), (''n03 shark'', 0.05),
        (''n06 hen'', 0.02), (''n04 ray'', 0.02)]"
    by (simp add: run_inference_cases assms p stub_classifier_def r)
qed

section \<open>Claims about the ranking cell\<close>

text \<open>
  C2, as stated: on the scores 0.1, 0.9, 0.05, 0.02, 0.01, 0.02 the two entries tied at
  0.02 are printed in the order of their indices, index 3 before index 5. The cell prints
  index 5 first, so the statement fails there.
\<close>

theorem example_tie_order_counterexample:
  "\<not> appears_before 3 5 (top5_indices example_scores)"
  by (simp add: example_top5_indices appears_before_def)

text \<open>
  C2, amended: on the scores 0.1, 0.9, 0.05, 0.02, 0.01, 0.02 with six labels the cell
  prints exactly five pairs of a label and a score, in descending order of the score and
  without the smallest entry (index 4); the two entries tied at 0.02 are printed in the
  reverse order of their indices, index 5 before index 3, because the ascending order of
  \<^verbatim>\<open>np.argsort\<close> is reversed.
\<close>

theorem example_top5:
  "rank example_labels example_scores =
     (None, [(''l1'', 0.9), (''l0'', 0.1), (''l2'', 0.05), (''l5'', 0.02), (''l3'', 0.02)])
   \<and> length (snd (rank example_labels example_scores)) = 5
   \<and> descending (map snd (snd (rank example_labels example_scores)))
   \<and> top5_indices example_scores = [1, 0, 2, 5, 3]
   \<and> 4 \<notin> set (top5_indices example_scores)
   \<and> appears_before 5 3 (top5_indices example_scores)"
  by (simp add: example_rank example_top5_indices appears_before_def descending_def)

text \<open>
  C5: there are a label list and a score vector of different lengths on which the cell
  fails with \<^verbatim>\<open>IndexError\<close>. Nothing compares the two lengths before the indexing:
  another pair of different lengths is printed without any error.
\<close>

theorem rank_length_mismatch:
  "(\<exists>labels scores. length labels \<noteq> length scores \<and> fst (rank labels scores) = Some IndexError)
   \<and> (\<exists>labels scores. length labels \<noteq> length scores \<and> fst (rank labels scores) = None)"
proof
  have "top5_indices [0.1, 0.9] = [1, 0]"
    by (simp add: top5_indices_def np_argsort_def sorted_prefix_rev_def upt_rec)
  then have "length [''a''] \<noteq> length [0.1, 0.9 :: real]
      \<and> fst (rank [''a''] [0.1, 0.9]) = Some IndexError"
    by (simp add: rank_def)
  then show "\<exists>labels scores. length labels \<noteq> length scores
      \<and> fst (rank labels scores) = Some IndexError"
    by blast
next
  have "top5_indices [0.1, 0.9] = [1, 0]"
    by (simp add: top5_indices_def np_argsort_def sorted_prefix_rev_def upt_rec)
  then have "length [''a'', ''b'', ''c''] \<noteq> length [0.1, 0.9 :: real]
      \<and> fst (rank [''a'', ''b'', ''c''] [0.1, 0.9]) = None"
    by (simp add: rank_def)
  then show "\<exists>labels scores. length labels \<noteq> length scores \<and> fst (rank labels scores) = None"
    by blast
qed

text \<open>
  C10: for every score vector \<^verbatim>\<open>np.argsort\<close> returns a permutation of the indices of the
  vector, and the first five of the reversed order are \<open>min 5 n\<close> indices of the vector,
  no two of them equal; a vector of fewer than five scores gives all its indices.
\<close>

theorem top5_indices_total_distinct:
  "set (np_argsort v) = {..<length v} \<and> length (np_argsort v) = length v
   \<and> distinct (np_argsort v)
   \<and> length (top5_indices v) = min 5 (length v)
   \<and> distinct (top5_indices v)
   \<and> set (top5_indices v) \<subseteq> {..<length v}"
proof -
  have d: "distinct (top5_indices v)"
    unfolding top5_indices_def by (rule distinct_take) (simp add: np_argsort_distinct)
  have l: "length (top5_indices v) = min 5 (length v)"
    by (simp add: top5_indices_def np_argsort_length min.commute)
  have s: "set (top5_indices v) \<subseteq> {..<length v}"
    using top5_indices_bound by auto
  show ?thesis
    using d l s by (simp add: np_argsort_set np_argsort_length np_argsort_distinct)
qed

section \<open>Claims about \<^verbatim>\<open>preprocess\<close>\<close>

text \<open>
  C1, as stated: the first step resizes the image so that its shortest side is 256 pixels
  and the aspect ratio is kept. \<^verbatim>\<open>transforms.Resize(256)\<close> leaves \<^verbatim>\<open>keep_ratio\<close> at
  \<^verbatim>\<open>False\<close>, so an image of 512 by 1024 pixels becomes 256 by 256: the ratio of height
  to width changes from 1:2 to 1:1.
\<close>

theorem resize_wide_image_counterexample:
  "map_sum id shape (resized nearest (plain_image 512 1024)) = Inr [256, 256, 3]
   \<and> shortest_side [256, 256, 3] = 256
   \<and> \<not> aspect_ratio_preserved (shape (plain_image 512 1024)) [256, 256, 3]"
  by (simp add: resized_eq [OF plain_image_shape] plain_image_shape
      aspect_ratio_preserved_def shortest_side_def)

text \<open>
  C1, amended: for every decoded image with three channels, the first step resizes the
  image to exactly 256 by 256 pixels, whatever its height and width, so the aspect ratio
  is kept only when the image is square; the crop to 224 by 224 is taken from that
  resized image.
\<close>

theorem resize_both_sides_256:
  assumes "shape img = [h, w, 3]" "0 < h" "0 < w"
  shows "\<exists>r crop. resized cv img = Inr r \<and> shape r = [256, 256, 3]
           \<and> (aspect_ratio_preserved (shape img) (shape r) \<longleftrightarrow> h = w)
           \<and> CenterCrop_forward 224 cv r = Inr crop \<and> cropped cv img = Inr crop
           \<and> shape crop = [224, 224, 3]"
proof -
  have r: "resized cv img = Inr \<lparr>shape = [256, 256, 3], item = cv 1 img 256 256\<rparr>"
    using assms by (simp add: resized_eq)
  have c: "cropped cv img =
    Inr \<lparr>shape = [224, 224, 3],
         item = (\<lambda>idx. cv 1 img 256 256 [16 + idx ! 0, 16 + idx ! 1, idx ! 2])\<rparr>"
    using assms by (simp add: cropped_eq)
  have a: "aspect_ratio_preserved (shape img) [256, 256, 3] \<longleftrightarrow> h = w"
    using assms by (auto simp: aspect_ratio_preserved_def)
  from c have c': "CenterCrop_forward 224 cv \<lparr>shape = [256, 256, 3], item = cv 1 img 256 256\<rparr> =
    Inr \<lparr>shape = [224, 224, 3],
         item = (\<lambda>idx. cv 1 img 256 256 [16 + idx ! 0, 16 + idx ! 1, idx ! 2])\<rparr>"
    by (simp add: cropped_def r and_then_def)
  show ?thesis
    using r c c' a by simp
qed

theorem resize_both_sides_256_witness:
  "shape (plain_image 300 400) = [300, 400, 3] \<and>
   (\<exists>r crop. resized nearest (plain_image 300 400) = Inr r \<and> shape r = [256, 256, 3]
           \<and> \<not> aspect_ratio_preserved (shape (plain_image 300 400)) (shape r)
           \<and> CenterCrop_forward 224 nearest r = Inr crop
           \<and> cropped nearest (plain_image 300 400) = Inr crop
           \<and> shape crop = [224, 224, 3])"
  using resize_both_sides_256 [of "plain_image 300 400" 300 400 nearest]
  by (simp add: plain_image_shape)

text \<open>
  C3: for every decoded image with three channels whose shortest side is at least 256
  pixels, \<^verbatim>\<open>preprocess\<close> returns an array of shape (1, 3, 224, 224) with floating-point
  entries; the composed transforms give shape (3, 224, 224), and the batch dimension is
  put in front of it last.
\<close>

theorem preprocess_shape:
  assumes "shape img = [h, w, 3]" "256 \<le> min h w"
  shows "\<exists>u t. transform_fn cv img = Inr u \<and> shape u = [3, 224, 224]
           \<and> expand_dims 0 u = Inr t \<and> preprocess cv img = Inr t
           \<and> shape t = [1, 3, 224, 224]"
proof -
  from assms(2) have "0 < h" "0 < w" by simp_all
  note u = transform_fn_eq [OF assms(1) this, of cv]
  show ?thesis
    by (simp add: u preprocess_def and_then_def expand_dims_def)
qed

theorem preprocess_shape_witness:
  "shape (plain_image 300 400) = [300, 400, 3] \<and> 256 \<le> min (300::nat) 400 \<and>
   (\<exists>u t. transform_fn nearest (plain_image 300 400) = Inr u \<and> shape u = [3, 224, 224]
           \<and> expand_dims 0 u = Inr t \<and> preprocess nearest (plain_image 300 400) = Inr t
           \<and> shape t = [1, 3, 224, 224])"
  using preprocess_shape [of "plain_image 300 400" 300 400 nearest]
  by (simp add: plain_image_shape)

text \<open>
  C4: for every pixel \<open>p\<close> of the cropped image, at row \<open>y\<close>, column \<open>x\<close> and channel
  \<open>c\<close>, the tensor conversion gives \<open>p / 255\<close>, a value between 0 and 1, and
  \<^verbatim>\<open>preprocess\<close> returns \<open>(p / 255 - mean[c]) / std[c]\<close> at position (0, c, y, x), with
  the means 0.485, 0.456, 0.406 and the deviations 0.229, 0.224, 0.225.
\<close>

theorem preprocess_values:
  assumes "shape img = [h, w, 3]" "0 < h" "0 < w" "c < 3" "y < 224" "x < 224"
  shows "\<exists>crop s t. cropped cv img = Inr crop
           \<and> and_then (cropped cv img) ToTensor = Inr s
           \<and> item s [c, y, x] = real (unat (item crop [y, x, c])) / 255
           \<and> 0 \<le> item s [c, y, x] \<and> item s [c, y, x] \<le> 1
           \<and> preprocess cv img = Inr t
           \<and> item t [0, c, y, x] =
               (real (unat (item crop [y, x, c])) / 255 - [0.485, 0.456, 0.406] ! c)
                 / [0.229, 0.224, 0.225] ! c"
proof -
  define crop where "crop =
    \<lparr>shape = [224, 224, 3],
     item = (\<lambda>idx. cv 1 img 256 256 [16 + idx ! 0, 16 + idx ! 1, idx ! 2])\<rparr>"
  define s where "s =
    \<lparr>shape = [3, 224, 224],
     item = (\<lambda>idx. real (unat (cv 1 img 256 256 [16 + idx ! 1, 16 + idx ! 2, idx ! 0])) / 255)\<rparr>"
  define u where "u =
    \<lparr>shape = [3, 224, 224],
     item = (\<lambda>idx. (real (unat (cv 1 img 256 256 [16 + idx ! 1, 16 + idx ! 2, idx ! 0])) / 255
               - [0.485, 0.456, 0.406] ! (idx ! 0)) / [0.229, 0.224, 0.225] ! (idx ! 0))\<rparr>"
  define t where "t = \<lparr>shape = 1 # shape u, item = (\<lambda>idx. item u (drop 1 idx))\<rparr>"
  have cr: "cropped cv img = Inr crop"
    unfolding crop_def using assms(1-3) by (simp add: cropped_eq)
  have sc: "and_then (cropped cv img) ToTensor = Inr s"
    unfolding s_def using assms(1-3) by (simp add: scaled_eq)
  have tr: "transform_fn cv img = Inr u"
    unfolding u_def using assms(1-3) by (rule transform_fn_eq)
  have pr: "preprocess cv img = Inr t"
    unfolding t_def using tr by (rule preprocess_expand)
  have b: "real (unat (p :: u8)) / 255 \<le> 1" for p
  proof -
    have "unat p < 256"
      using unsigned_less [of p, where ?'a = nat] by simp
    then have "real (unat p) \<le> real 255"
      by (simp only: of_nat_le_iff)
    then show ?thesis by simp
  qed
  have v: "item s [c, y, x] = real (unat (item crop [y, x, c])) / 255"
    by (simp add: s_def crop_def)
  have b0: "0 \<le> real (unat (p :: u8)) / 255" for p
    by (rule divide_nonneg_nonneg [OF of_nat_0_le_iff]) simp
  have r: "0 \<le> item s [c, y, x] \<and> item s [c, y, x] \<le> 1"
    unfolding v using b b0 by blast
  have n: "item t [0, c, y, x] =
      (real (unat (item crop [y, x, c])) / 255 - [0.485, 0.456, 0.406] ! c)
        / [0.229, 0.224, 0.225] ! c"
    by (simp add: t_def u_def crop_def)
  from cr sc v r pr n show ?thesis by blast
qed

theorem preprocess_values_witness:
  "\<exists>crop s t. cropped nearest (plain_image 256 256) = Inr crop
           \<and> and_then (cropped nearest (plain_image 256 256)) ToTensor = Inr s
           \<and> item s [0, 0, 0] = real (unat (item crop [0, 0, 0])) / 255
           \<and> 0 \<le> item s [0, 0, 0] \<and> item s [0, 0, 0] \<le> 1
           \<and> preprocess nearest (plain_image 256 256) = Inr t
           \<and> item t [0, 0, 0, 0] =
               (real (unat (item crop [0, 0, 0])) / 255 - [0.485, 0.456, 0.406] ! 0)
                 / [0.229, 0.224, 0.225] ! 0"
  using preprocess_values [of "plain_image 256 256" 256 256 0 0 0 nearest]
  by (simp add: plain_image_shape)

section \<open>Claims about the label file and the cells\<close>

text \<open>
  C7: the labels are loaded from the label file, one label per line. For a file with the
  lines \<open>ls\<close> and a last line \<open>final\<close>, the list of labels has one entry per line and
  label \<open>i\<close> is line \<open>i\<close> without its trailing whitespace; each printed pair is the label
  at an index \<open>i\<close> with the score at the same index \<open>i\<close>, so the class index is the
  line number.
\<close>

theorem labels_by_line_number:
  assumes "length es = length ls" "\<forall>l \<in> set ls. no_line_end l" "\<forall>e \<in> set es. is_line_end e"
    and "no_line_end final"
    and "nb_scores nb = Some scores"
    and "cell_rank (text_of_lines ls es final) nb = (None, nb')"
  shows "\<exists>labels ixs. nb_labels nb' = Some labels
           \<and> length labels = length (lines_of ls final)
           \<and> (\<forall>i < length labels. stripped_of (lines_of ls final ! i) (labels ! i))
           \<and> length ixs = min 5 (length scores) \<and> distinct ixs
           \<and> (\<forall>i \<in> set ixs. i < length labels \<and> i < length scores)
           \<and> nb_out nb' = map (\<lambda>i. (labels ! i, scores ! i)) ixs"
proof -
  define synset where "synset = text_of_lines ls es final"
  define labels where "labels = map rstrip (lines_of ls final)"
  have ll: "load_labels synset = labels"
    unfolding synset_def labels_def using assms(1-4) by (rule load_labels_text)
  note eq = cell_rank_eq [OF assms(5), of synset]
  from assms(6) have ok: "fst (rank labels scores) = None"
    and nb': "nb' = nb\<lparr>nb_labels := Some labels,
                nb_a := Some (rev (np_argsort scores)),
                nb_out := snd (rank labels scores)\<rparr>"
    by (simp_all add: eq ll synset_def [symmetric])
  have 1: "nb_labels nb' = Some labels" by (simp add: nb')
  have 2: "length labels = length (lines_of ls final)" by (simp add: labels_def)
  have 3: "\<forall>i < length labels. stripped_of (lines_of ls final ! i) (labels ! i)"
    by (simp add: labels_def stripped_of_rstrip)
  from ok have 4: "\<forall>i \<in> set (top5_indices scores). i < length labels \<and> i < length scores"
    by (simp add: rank_status top5_indices_bound split: if_splits)
  have 5: "nb_out nb' = map (\<lambda>i. (labels ! i, scores ! i)) (top5_indices scores)"
    using rank_ok [OF ok] by (simp add: nb')
  from 1 2 3 4 5 top5_indices_length [of scores] top5_indices_distinct [of scores]
  show ?thesis by blast
qed

theorem labels_by_line_number_witness:
  "(\<exists>labels ixs.
      nb_labels (snd (cell_rank (text_of_lines example_lines example_ends ''n06 hen'')
          (blank_notebook\<lparr>nb_scores := Some example_scores\<rparr>))) = Some labels
      \<and> length labels = length (lines_of example_lines ''n06 hen'')
      \<and> (\<forall>i < length labels. stripped_of (lines_of example_lines ''n06 hen'' ! i) (labels ! i))
      \<and> length ixs = min 5 (length example_scores) \<and> distinct ixs
      \<and> (\<forall>i \<in> set ixs. i < length labels \<and> i < length example_scores)
      \<and> nb_out (snd (cell_rank (text_of_lines example_lines example_ends ''n06 hen'')
          (blank_notebook\<lparr>nb_scores := Some example_scores\<rparr>)))
            = map (\<lambda>i. (labels ! i, example_scores ! i)) ixs)
   \<and> nb_labels (snd (cell_rank (text_of_lines example_lines example_ends ''n06 hen'')
          (blank_notebook\<lparr>nb_scores := Some example_scores\<rparr>)))
        = Some [''n01 tench'', ''n02 goldfish'', ''n03 shark'', ''n04 ray'', ''n05 cock'',
                ''n06 hen'']"
proof -
  have h1: "length example_ends = length example_lines"
    by (simp add: example_ends_def example_lines_def)
  have h2: "\<forall>l \<in> set example_lines. no_line_end l"
    by (simp add: example_lines_def no_line_end_def)
  have h3: "\<forall>e \<in> set example_ends. is_line_end e"
    by (simp add: example_ends_def is_line_end_def)
  have h4: "no_line_end ''n06 hen''"
    by (simp add: no_line_end_def)
  have h5: "nb_scores (blank_notebook\<lparr>nb_scores := Some example_scores\<rparr>) = Some example_scores"
    by simp
  have h6: "cell_rank (text_of_lines example_lines example_ends ''n06 hen'')
      (blank_notebook\<lparr>nb_scores := Some example_scores\<rparr>) =
    (None, snd (cell_rank (text_of_lines example_lines example_ends ''n06 hen'')
      (blank_notebook\<lparr>nb_scores := Some example_scores\<rparr>)))"
    by (simp add: example_text_of_lines example_cell_rank)
  have l: "nb_labels (snd (cell_rank (text_of_lines example_lines example_ends ''n06 hen'')
          (blank_notebook\<lparr>nb_scores := Some example_scores\<rparr>)))
        = Some [''n01 tench'', ''n02 goldfish'', ''n03 shark'', ''n04 ray'', ''n05 cock'',
                ''n06 hen'']"
    by (simp add: example_text_of_lines example_cell_rank example_load_labels)
  from labels_by_line_number [OF h1 h2 h3 h4 h5 h6] l show ?thesis
    by (rule conjI)
qed

text \<open>
  C8: the cells from the decoded image to the printed classes are deterministic. Two runs
  on the same image, with the same classifier and the same label file, end in the same
  way and, when they end without an exception, print the same lines, whatever the other
  variables of the notebook held before: the cells read the image and nothing else that
  an earlier run left behind.
\<close>

theorem pipeline_deterministic:
  assumes "nb_img nb1 = nb_img nb2" "nb_predictor nb1 = nb_predictor nb2"
  shows "fst (run_inference cv predict synset nb1) = fst (run_inference cv predict synset nb2)
         \<and> (fst (run_inference cv predict synset nb1) = None \<longrightarrow>
              nb_out (snd (run_inference cv predict synset nb1))
                = nb_out (snd (run_inference cv predict synset nb2)))"
  using assms
  by (simp add: run_inference_cases split: option.splits sum.splits)

theorem pipeline_deterministic_witness:
  "nb_img fresh_run = nb_img repeated_run
   \<and> nb_predictor fresh_run = nb_predictor repeated_run
   \<and> nb_out fresh_run \<noteq> nb_out repeated_run
   \<and> fst (run_inference nearest stub_classifier example_synset fresh_run) = None
   \<and> fst (run_inference nearest stub_classifier example_synset repeated_run) = None
   \<and> nb_out (snd (run_inference nearest stub_classifier example_synset fresh_run))
       = nb_out (snd (run_inference nearest stub_classifier example_synset repeated_run))"
proof -
  have i: "nb_img fresh_run = nb_img repeated_run"
    by (simp add: fresh_run_def repeated_run_def)
  have q: "nb_predictor fresh_run = nb_predictor repeated_run"
    by (simp add: fresh_run_def repeated_run_def)
  have f: "nb_img fresh_run = Some (plain_image 256 256)"
    "nb_predictor fresh_run = Some ''stub''"
    by (simp_all add: fresh_run_def)
  have o: "nb_out fresh_run \<noteq> nb_out repeated_run"
    by (simp add: fresh_run_def repeated_run_def stale_notebook_def blank_notebook_def)
  from pipeline_deterministic [OF i q, of nearest stub_classifier example_synset]
    example_run(1) [OF f] i q o
  show ?thesis by simp
qed

text \<open>
  C9: the reference to the uploaded archive is passed on unchanged. When the upload cell,
  the model cell and the deployment cell have run, the deployment was asked for a model
  whose \<^verbatim>\<open>model_data\<close> is exactly the URI that the upload returned.
\<close>

theorem artifact_reference_unchanged:
  assumes "prepare_and_deploy upload_data deploy nb = (None, nb')"
  shows "\<exists>uri m p. upload_data ''onnx_model.tar.gz'' ''model'' = Inr uri
           \<and> nb_model_data nb' = Some uri
           \<and> nb_mxnet_model nb' = Some m \<and> model_data m = uri
           \<and> deploy m 1 ''ml.m5.xlarge'' ''ml.eia1.medium'' = Inr p
           \<and> nb_predictor nb' = Some p"
  using assms
  by (auto simp: prepare_and_deploy_def then_cell_def cell_upload_def cell_model_def
      cell_deploy_def split: sum.splits option.splits)

theorem artifact_reference_unchanged_witness:
  "fst (prepare_and_deploy example_upload example_deploy
          (blank_notebook\<lparr>nb_role := Some ''arn:aws:iam::role''\<rparr>)) = None
   \<and> (\<exists>uri m p. example_upload ''onnx_model.tar.gz'' ''model'' = Inr uri
         \<and> uri = ''s3://bucket/model/onnx_model.tar.gz''
         \<and> nb_mxnet_model (snd (prepare_and_deploy example_upload example_deploy
               (blank_notebook\<lparr>nb_role := Some ''arn:aws:iam::role''\<rparr>))) = Some m
         \<and> model_data m = uri
         \<and> example_deploy m 1 ''ml.m5.xlarge'' ''ml.eia1.medium'' = Inr p)"
  using artifact_reference_unchanged [of example_upload example_deploy
      "blank_notebook\<lparr>nb_role := Some ''arn:aws:iam::role''\<rparr>"
      "snd (prepare_and_deploy example_upload example_deploy
          (blank_notebook\<lparr>nb_role := Some ''arn:aws:iam::role''\<rparr>))"]
  by (simp add: prepare_and_deploy_def then_cell_def cell_upload_def cell_model_def
      cell_deploy_def example_upload_def example_deploy_def blank_notebook_def)

end
